theory Spec2Isabelle
  imports Main "HOL-Library.Word" "HOL-Library.Sublist" "HOL-Library.AList"
begin

section \<open>JavaScript values\<close>

text \<open>
  A JavaScript string is a sequence of 16-bit code units. String literals of the source are
  written \<open>js ''...''\<close>; characters that have no plain notation (the double quote, the
  backslash, the line feed) are given by their code unit.
\<close>

type_synonym jschar = "16 word"
type_synonym jsstr = "jschar list"

definition js :: "string \<Rightarrow> jsstr" where
  "js s = map of_char s"

text \<open>
  The values the client handles: \<open>undefined\<close>, \<open>null\<close>, booleans, numbers, strings, arrays
  and plain objects. \<open>JNum n\<close> is the number whose value is the integer \<open>n\<close>, in the range
  where \<open>String\<close> prints plain decimal digits (below \<open>10^21\<close> in magnitude); fractions,
  \<open>NaN\<close> and the infinities are outside the model, and so are class instances, dates and
  functions. \<open>JObj kvs\<close> is a plain object given by its own enumerable properties in
  enumeration order (keys distinct).
\<close>

datatype jsvalue =
    JUndefined
  | JNull
  | JBool bool
  | JNum int
  | JStr jsstr
  | JArr "jsvalue list"
  | JObj "(jsstr \<times> jsvalue) list"

text \<open>Truthiness (\<open>ToBoolean\<close>): what \<open>if (v)\<close>, \<open>!v\<close>, \<open>v || w\<close> and \<open>Boolean(v)\<close> test.\<close>

fun truthy :: "jsvalue \<Rightarrow> bool" where
  "truthy JUndefined = False"
| "truthy JNull = False"
| "truthy (JBool b) = b"
| "truthy (JNum n) = (n \<noteq> 0)"
| "truthy (JStr s) = (s \<noteq> [])"
| "truthy (JArr xs) = True"
| "truthy (JObj kvs) = True"

text \<open>\<open>v == null\<close> holds of \<open>null\<close> and \<open>undefined\<close> only.\<close>

fun is_nullish :: "jsvalue \<Rightarrow> bool" where
  "is_nullish JUndefined = True"
| "is_nullish JNull = True"
| "is_nullish v = False"

text \<open>Decimal digits of a natural number, as \<open>String(n)\<close> prints them.\<close>

fun digits :: "nat \<Rightarrow> jsstr" where
  "digits n = (if n < 10 then [of_nat (48 + n)]
               else digits (n div 10) @ [of_nat (48 + n mod 10)])"

declare digits.simps [simp del]

text \<open>Strings joined with a separator (\<open>Array.prototype.join\<close> on strings).\<close>

fun str_join :: "jsstr \<Rightarrow> jsstr list \<Rightarrow> jsstr" where
  "str_join sep [] = []"
| "str_join sep [x] = x"
| "str_join sep (x # y # ys) = x @ sep @ str_join sep (y # ys)"

text \<open>
  \<open>ToString\<close>: what a template literal \<open>`${v}`\<close>, string concatenation and \<open>String(v)\<close>
  produce. An array prints its elements joined by commas, \<open>null\<close> and \<open>undefined\<close>
  elements as the empty string.
\<close>

fun ToString :: "jsvalue \<Rightarrow> jsstr" where
  "ToString JUndefined = js ''undefined''"
| "ToString JNull = js ''null''"
| "ToString (JBool b) = (if b then js ''true'' else js ''false'')"
| "ToString (JNum n) = (if n < 0 then js ''-'' @ digits (nat (- n)) else digits (nat n))"
| "ToString (JStr s) = s"
| "ToString (JArr xs) =
     str_join (js '','') (map (\<lambda>x. if is_nullish x then [] else ToString x) xs)"
| "ToString (JObj kvs) = js ''[object Object]''"

text \<open>\<open>xs.join(sep)\<close> on an array of values.\<close>

definition Array_join :: "jsvalue list \<Rightarrow> jsstr \<Rightarrow> jsstr" where
  "Array_join xs sep = str_join sep (map (\<lambda>x. if is_nullish x then [] else ToString x) xs)"

text \<open>
  Own enumerable properties, in enumeration order: those of a plain object, the indices of
  an array, the indices of a string. Other primitives have none.
\<close>

fun own_props :: "jsvalue \<Rightarrow> (jsstr \<times> jsvalue) list" where
  "own_props (JObj kvs) = kvs"
| "own_props (JArr xs) = map (\<lambda>i. (digits i, xs ! i)) [0..<length xs]"
| "own_props (JStr s) = map (\<lambda>i. (digits i, JStr [s ! i])) [0..<length s]"
| "own_props v = []"

definition Object_keys :: "jsvalue \<Rightarrow> jsstr list" where
  "Object_keys v = map fst (own_props v)"

text \<open>
  Property read \<open>v[k]\<close> and \<open>v.k\<close> on a value that is neither \<open>null\<close> nor \<open>undefined\<close>,
  for a key that is an own property or none at all (\<open>errors\<close>, \<open>fields\<close>, \<open>nodes\<close>, or a key
  taken from \<open>Object.keys\<close>).
\<close>

definition get_prop :: "jsvalue \<Rightarrow> jsstr \<Rightarrow> jsvalue" where
  "get_prop v k = (case map_of (own_props v) k of Some x \<Rightarrow> x | None \<Rightarrow> JUndefined)"

text \<open>\<open>Object.assign(target, source)\<close> on a target object: every own enumerable property
  of the source is written in order; an existing key keeps its place and takes the new
  value, a new key is appended. A \<open>null\<close> or \<open>undefined\<close> source writes nothing. (The
  place JavaScript gives to integer-like keys in the enumeration is not modelled.)\<close>

definition Object_assign :: "(jsstr \<times> jsvalue) list \<Rightarrow> jsvalue \<Rightarrow> (jsstr \<times> jsvalue) list" where
  "Object_assign target source =
     foldl (\<lambda>acc kv. AList.update (fst kv) (snd kv) acc) target (own_props source)"

subsection \<open>JSON.stringify\<close>

text \<open>
  \<open>QuoteJSONString\<close> of ECMA-262: the string between double quotes, with the double quote,
  the backslash and the control characters escaped, a lone surrogate written as a
  \<open>\<bsol>u\<close> escape and a surrogate pair kept.
\<close>

definition hex_digit :: "nat \<Rightarrow> jschar" where
  "hex_digit n = of_nat (if n < 10 then 48 + n else 87 + n)"

definition unicode_escape :: "jschar \<Rightarrow> jsstr" where
  "unicode_escape c =
     [0x5C, 0x75, hex_digit (unat c div 4096 mod 16), hex_digit (unat c div 256 mod 16),
      hex_digit (unat c div 16 mod 16), hex_digit (unat c mod 16)]"

definition is_lead :: "jschar \<Rightarrow> bool" where
  "is_lead c \<longleftrightarrow> 0xD800 \<le> c \<and> c \<le> 0xDBFF"

definition is_trail :: "jschar \<Rightarrow> bool" where
  "is_trail c \<longleftrightarrow> 0xDC00 \<le> c \<and> c \<le> 0xDFFF"

definition quote_unit :: "jschar \<Rightarrow> jsstr" where
  "quote_unit c =
     (if c = 0x08 then [0x5C, 0x62]
      else if c = 0x09 then [0x5C, 0x74]
      else if c = 0x0A then [0x5C, 0x6E]
      else if c = 0x0C then [0x5C, 0x66]
      else if c = 0x0D then [0x5C, 0x72]
      else if c = 0x22 then [0x5C, 0x22]
      else if c = 0x5C then [0x5C, 0x5C]
      else if c < 0x20 \<or> is_lead c \<or> is_trail c then unicode_escape c
      else [c])"

fun quote_units :: "jsstr \<Rightarrow> jsstr" where
  "quote_units [] = []"
| "quote_units [c] = quote_unit c"
| "quote_units (c # d # cs) =
     (if is_lead c \<and> is_trail d then c # d # quote_units cs
      else quote_unit c @ quote_units (d # cs))"

definition QuoteJSONString :: "jsstr \<Rightarrow> jsstr" where
  "QuoteJSONString s = [0x22] @ quote_units s @ [0x22]"

text \<open>
  \<open>JSON.stringify(v)\<close> without indentation. The result is \<open>undefined\<close> for \<open>undefined\<close>;
  an \<open>undefined\<close> array element is written \<open>null\<close> and an \<open>undefined\<close> property is left out.
\<close>

fun JSON_stringify :: "jsvalue \<Rightarrow> jsvalue" where
  "JSON_stringify JUndefined = JUndefined"
| "JSON_stringify JNull = JStr (js ''null'')"
| "JSON_stringify (JBool b) = JStr (if b then js ''true'' else js ''false'')"
| "JSON_stringify (JNum n) = JStr (ToString (JNum n))"
| "JSON_stringify (JStr s) = JStr (QuoteJSONString s)"
| "JSON_stringify (JArr xs) =
     JStr (js ''['' @
           str_join (js '','')
             (map (\<lambda>x. case JSON_stringify x of JStr t \<Rightarrow> t | _ \<Rightarrow> js ''null'') xs) @
           js '']'')"
| "JSON_stringify (JObj kvs) =
     JStr (js ''{'' @
           str_join (js '','')
             (concat (map (\<lambda>(k, v). case JSON_stringify v of
                                       JStr t \<Rightarrow> [QuoteJSONString k @ js '':'' @ t]
                                     | _ \<Rightarrow> []) kvs)) @
           js ''}'')"

section \<open>Regular expressions of the source\<close>

text \<open>The class \<open>\<bsol>s\<close>: white space and line terminators.\<close>

definition is_space :: "jschar \<Rightarrow> bool" where
  "is_space c \<longleftrightarrow>
     c = 0x09 \<or> c = 0x0A \<or> c = 0x0B \<or> c = 0x0C \<or> c = 0x0D \<or> c = 0x20 \<or> c = 0xA0 \<or>
     c = 0x1680 \<or> (0x2000 \<le> c \<and> c \<le> 0x200A) \<or> c = 0x2028 \<or> c = 0x2029 \<or>
     c = 0x202F \<or> c = 0x205F \<or> c = 0x3000 \<or> c = 0xFEFF"

text \<open>A pattern with no anchor matches when it occurs anywhere in the subject.\<close>

fun contains :: "jsstr \<Rightarrow> jsstr \<Rightarrow> bool" where
  "contains p [] = (p = [])"
| "contains p (c # cs) = (prefix p (c # cs) \<or> contains p cs)"

text \<open>
  \<open>/^\s*query|mutation|subscription/\<close>: alternation binds weakest, so the three
  alternatives are \<open>^\s*query\<close>, \<open>mutation\<close> and \<open>subscription\<close>; only the first is
  anchored at the start.
\<close>

definition re_operation :: "jsstr \<Rightarrow> bool" where
  "re_operation s \<longleftrightarrow>
     prefix (js ''query'') (dropWhile is_space s) \<or>
     contains (js ''mutation'') s \<or>
     contains (js ''subscription'') s"

text \<open>\<open>/^\s*[a-zA-Z0-9]/\<close>\<close>

definition is_alnum :: "jschar \<Rightarrow> bool" where
  "is_alnum c \<longleftrightarrow> (0x61 \<le> c \<and> c \<le> 0x7A) \<or> (0x41 \<le> c \<and> c \<le> 0x5A) \<or> (0x30 \<le> c \<and> c \<le> 0x39)"

definition re_starts_alnum :: "jsstr \<Rightarrow> bool" where
  "re_starts_alnum s \<longleftrightarrow> (case dropWhile is_space s of [] \<Rightarrow> False | c # _ \<Rightarrow> is_alnum c)"

text \<open>
  \<open>/(?::|\()\s*$/\<close>: tried at every position; a colon or an open parenthesis, then white
  space up to the end of the subject.
\<close>

fun re_arg_end :: "jsstr \<Rightarrow> bool" where
  "re_arg_end [] = False"
| "re_arg_end (c # cs) = (((c = 0x3A \<or> c = 0x28) \<and> list_all is_space cs) \<or> re_arg_end cs)"

text \<open>
  \<open>ENUM_REGEX\<close>, \<open>^__ENUM__::([A-Za-z_]+)$\<close>, through \<open>str.match\<close>: the captured group
  when the subject matches.
\<close>

definition ENUM_PREFIX :: jsstr where
  "ENUM_PREFIX = js ''__ENUM__::''"

definition is_enum_char :: "jschar \<Rightarrow> bool" where
  "is_enum_char c \<longleftrightarrow> (0x41 \<le> c \<and> c \<le> 0x5A) \<or> (0x61 \<le> c \<and> c \<le> 0x7A) \<or> c = 0x5F"

definition ENUM_REGEX :: "jsstr \<Rightarrow> jsstr option" where
  "ENUM_REGEX str =
     (let val = drop (length ENUM_PREFIX) str
      in if prefix ENUM_PREFIX str \<and> val \<noteq> [] \<and> list_all is_enum_char val
         then Some val else None)"

section \<open>The argument encoder\<close>

text \<open>
  \<open>_.forEach(obj, f)\<close> of lodash visits the own enumerable properties of a plain object in
  order, unless the object has a \<open>length\<close> property that is a valid array length: then it
  visits the indices \<open>0 .. length - 1\<close>.
\<close>

definition forEach_entries :: "(jsstr \<times> jsvalue) list \<Rightarrow> (jsstr \<times> jsvalue) list" where
  "forEach_entries obj =
     (case map_of obj (js ''length'') of
        Some (JNum n) \<Rightarrow>
          if 0 \<le> n \<and> n \<le> 9007199254740991
          then map (\<lambda>i. (digits i, get_prop (JObj obj) (digits i))) [0..<nat n]
          else obj
      | _ \<Rightarrow> obj)"

definition convertStrToGqlArg :: "jsstr \<Rightarrow> jsstr" where
  "convertStrToGqlArg str =
     (case ENUM_REGEX str of
        Some val \<Rightarrow> if val \<noteq> [] then val else QuoteJSONString str
      | None \<Rightarrow> QuoteJSONString str)"

text \<open>
  \<open>convertToGqlArg\<close> returns the value \<open>null\<close> (not a text) for \<open>null\<close> and \<open>undefined\<close>, and
  a string otherwise. \<open>convertObjToGqlArg\<close> puts each result into a template literal, which
  prints it with \<open>ToString\<close>.
\<close>

function convertToGqlArg :: "jsvalue \<Rightarrow> jsvalue"
  and convertObjToGqlArg :: "(jsstr \<times> jsvalue) list \<Rightarrow> jsstr" where
  "convertToGqlArg value =
     (if is_nullish value then JNull
      else case value of
        JNum n \<Rightarrow> JStr (ToString value)
      | JStr s \<Rightarrow> JStr (convertStrToGqlArg s)
      | JObj obj \<Rightarrow> JStr (js ''{'' @ convertObjToGqlArg obj @ js ''}'')
      | _ \<Rightarrow> JSON_stringify value)"
| "convertObjToGqlArg obj =
     str_join (js '', '')
       (map (\<lambda>kv. fst kv @ js '': '' @ ToString (convertToGqlArg (snd kv)))
          (forEach_entries obj))"
  by pat_completeness auto
termination
proof -
  have in_obj: "size (snd p) < Suc (size_list (size_prod (\<lambda>_. 0) size) obj)"
    if "p \<in> set obj" for p and obj :: "(jsstr \<times> jsvalue) list"
    using that by (induction obj) (auto simp: less_Suc_eq_le)
  have lookup: "size (get_prop (JObj obj) k) < Suc (size_list (size_prod (\<lambda>_. 0) size) obj)"
    for k obj
  proof (cases "map_of obj k")
    case None
    then show ?thesis by (simp add: get_prop_def)
  next
    case (Some v)
    then have "(k, v) \<in> set obj" by (rule map_of_SomeD)
    from in_obj [OF this] Some show ?thesis by (simp add: get_prop_def)
  qed
  have visited: "size (snd kv) < Suc (size_list (size_prod (\<lambda>_. 0) size) obj)"
    if "kv \<in> set (forEach_entries obj)" for kv obj
    using that in_obj [of kv obj] lookup [of obj]
    by (auto simp: forEach_entries_def split: option.splits jsvalue.splits if_splits)
  show ?thesis
    by (relation "measure (\<lambda>x. case x of Inl v \<Rightarrow> 2 * size v
                                          | Inr obj \<Rightarrow> 2 * size (JObj obj) - 1)")
       (auto dest: visited)
qed

declare convertToGqlArg.simps [simp del] convertObjToGqlArg.simps [simp del]

text \<open>\<open>Gql.enum\<close>: \<open>val ? ENUM_PREFIX + val : val\<close>.\<close>

definition Gql_enum :: "jsvalue \<Rightarrow> jsvalue" where
  "Gql_enum val = (if truthy val then JStr (ENUM_PREFIX @ ToString val) else val)"

text \<open>
  The options of \<open>toGqlArg\<close>. \<open>pick\<close>, when given, holds the projection
  \<open>_.pick(\<cdot>, opts.pick)\<close> of lodash for the paths supplied. An options value that is an
  array \<open>p\<close> stands for \<open>{pick: p}\<close>: it is the record with that \<open>pick\<close> and both brackets
  off. \<open>no_opts\<close> is the default \<open>{}\<close>.
\<close>

record toGqlArg_opts =
  pick :: "((jsstr \<times> jsvalue) list \<Rightarrow> (jsstr \<times> jsvalue) list) option"
  curlyBrackets :: bool
  roundBrackets :: bool

definition no_opts :: toGqlArg_opts where
  "no_opts = \<lparr>pick = None, curlyBrackets = False, roundBrackets = False\<rparr>"

text \<open>The value of \<open>gqlArg\<close> before the round-bracket step (the encoding of the argument).\<close>

definition toGqlArg_encoding :: "jsvalue \<Rightarrow> toGqlArg_opts \<Rightarrow> jsvalue" where
  "toGqlArg_encoding arg opts =
     (case arg of
        JObj obj \<Rightarrow>
          (let arg' = (case pick opts of Some p \<Rightarrow> p obj | None \<Rightarrow> obj);
               gqlArg = convertObjToGqlArg arg'
           in JStr (if curlyBrackets opts then js ''{'' @ gqlArg @ js ''}'' else gqlArg))
      | _ \<Rightarrow> convertToGqlArg arg)"

definition no_args_text :: jsstr where
  "no_args_text = js ''# no args <>'' @ [0x0A]"

definition toGqlArg :: "jsvalue \<Rightarrow> toGqlArg_opts \<Rightarrow> jsvalue" where
  "toGqlArg arg opts =
     (let gqlArg = toGqlArg_encoding arg opts;
          gqlArg' = (if roundBrackets opts
                     then (if truthy gqlArg then JStr (js ''('' @ ToString gqlArg @ js '')'')
                           else JStr (js '' ''))
                     else gqlArg)
      in if truthy gqlArg' then gqlArg' else JStr no_args_text)"

section \<open>The template engine\<close>

text \<open>\<open>args[i]\<close>: \<open>undefined\<close> beyond the end of the array.\<close>

definition arg_at :: "jsvalue list \<Rightarrow> nat \<Rightarrow> jsvalue" where
  "arg_at args i = (if i < length args then args ! i else JUndefined)"

text \<open>The loop of \<open>tag\<close>, from index \<open>i\<close> with the text \<open>out\<close> built so far.\<close>

function tag_loop :: "jsstr list \<Rightarrow> jsvalue list \<Rightarrow> nat \<Rightarrow> jsstr \<Rightarrow> jsstr" where
  "tag_loop strings args i out =
     (if i < length strings then
        (let arg = arg_at args (i - 1);
             out1 = (if re_arg_end (strings ! (i - 1))
                     then out @ ToString (toGqlArg arg no_opts)
                     else if truthy arg then
                       (case arg of
                          JStr s \<Rightarrow> out @ s
                        | JArr xs \<Rightarrow> out @ Array_join (filter truthy xs) (js '' '')
                        | _ \<Rightarrow> out)
                     else out)
         in tag_loop strings args (i + 1) (out1 @ strings ! i))
      else out)"
  by pat_completeness auto
termination
  by (relation "measure (\<lambda>(strings, args, i, out). length strings - i)") auto

declare tag_loop.simps [simp del]

definition tag :: "jsstr list \<Rightarrow> jsvalue list \<Rightarrow> jsvalue" where
  "tag strings args =
     (case strings of
        [] \<Rightarrow> JUndefined
      | s0 # _ \<Rightarrow> JStr (tag_loop strings args 1 s0))"

section \<open>Execution\<close>

text \<open>
  The errors a call can fail with: \<open>ApiError\<close> with its message and its \<open>errors\<close> property
  (\<open>undefined\<close> when not set), \<open>GraphqlError\<close> with its message, the raw errors and the
  field map, and the \<open>TypeError\<close> the language raises.
\<close>

datatype gql_error =
    ApiError jsstr jsvalue
  | GraphqlError jsstr "jsvalue list" "(jsstr \<times> jsvalue) list"
  | TypeError

record response =
  statusCode :: int
  body :: jsstr

text \<open>What the engine call \<open>graphql({...})\<close> resolves with; \<open>errors\<close> is empty when absent.\<close>

record exec_result =
  data :: jsvalue
  errors :: "jsvalue list"

text \<open>
  A client and the collaborators it calls. \<open>api\<close> is set in remote mode and gives the
  response of the endpoint to a posted query text; \<open>tryParseJson\<close> is \<open>Str.tryParseJson\<close>;
  \<open>graphql\<close> is the local engine on the schema selected by the schema name (with the query,
  the context and the variables); \<open>formatError\<close> is the formatter of raw errors; \<open>cache\<close>
  tells whether a cache is configured.
\<close>

record gql =
  api :: "(jsstr \<Rightarrow> response) option"
  tryParseJson :: "jsstr \<Rightarrow> jsvalue"
  graphql :: "jsvalue \<Rightarrow> jsstr \<Rightarrow> jsvalue \<Rightarrow> jsvalue \<Rightarrow> exec_result"
  formatError :: "jsvalue \<Rightarrow> jsvalue"
  cache :: bool

text \<open>
  The world the calls act on: the contents of the cache (under a key, the value and the
  \<open>ttl\<close> it was stored with; a stored entry is returned by later reads) and the query
  texts handed to the endpoint or the engine so far, in order.
\<close>

record world =
  store :: "jsvalue \<Rightarrow> (jsvalue \<times> jsvalue) option"
  sent :: "jsstr list"

definition cache_get :: "world \<Rightarrow> jsvalue \<Rightarrow> jsvalue" where
  "cache_get w k = (case store w k of Some (v, t) \<Rightarrow> v | None \<Rightarrow> JUndefined)"

definition cache_set :: "world \<Rightarrow> jsvalue \<Rightarrow> jsvalue \<Rightarrow> jsvalue \<Rightarrow> world" where
  "cache_set w k v t = w\<lparr>store := (store w)(k \<mapsto> (v, t))\<rparr>"

text \<open>\<open>_.isEmpty\<close> of lodash.\<close>

fun isEmpty :: "jsvalue \<Rightarrow> bool" where
  "isEmpty (JArr xs) = (xs = [])"
| "isEmpty (JStr s) = (s = [])"
| "isEmpty (JObj kvs) = (kvs = [])"
| "isEmpty v = True"

definition execApi :: "gql \<Rightarrow> jsstr \<Rightarrow> world \<Rightarrow> (gql_error + jsvalue) \<times> world" where
  "execApi g query w =
     (case api g of
        None \<Rightarrow> (Inl TypeError, w)
      | Some post \<Rightarrow>
          (let response = post query;
               w' = w\<lparr>sent := sent w @ [query]\<rparr>;
               result = tryParseJson g (body response)
           in if statusCode response \<noteq> 200 then
                (let e = (if truthy result then get_prop result (js ''errors'') else result);
                     e' = (if truthy e then e else JStr (js ''Unknown error''))
                 in (Inl (ApiError (ToString (JNum (statusCode response)) @ js '', '' @ ToString e')
                            JUndefined), w'))
              else if \<not> truthy result then
                (Inl (ApiError (js ''Invalid result from api'') JUndefined), w')
              else if \<not> isEmpty (get_prop result (js ''errors'')) then
                (Inl (ApiError (js ''Errors in api response'') (get_prop result (js ''errors''))), w')
              else (Inr result, w')))"

text \<open>The \<open>errors.forEach\<close> loop of \<open>_execGraphql\<close>: each raw error is formatted and its
  \<open>fields\<close> are assigned onto the map built so far.\<close>

fun assign_fields ::
  "(jsvalue \<Rightarrow> jsvalue) \<Rightarrow> jsvalue list \<Rightarrow> (jsstr \<times> jsvalue) list \<Rightarrow> gql_error + (jsstr \<times> jsvalue) list"
where
  "assign_fields fmt [] fieldmap = Inr fieldmap"
| "assign_fields fmt (error # rest) fieldmap =
     (let error' = fmt error
      in if is_nullish error' then Inl TypeError
         else assign_fields fmt rest (Object_assign fieldmap (get_prop error' (js ''fields''))))"

definition unknown_fields :: "(jsstr \<times> jsvalue) list" where
  "unknown_fields =
     [(js ''global'', JObj [(js ''message'', JStr (js ''Unknown Error'')),
                            (js ''keyword'', JStr (js ''unknown''))])]"

definition execGraphql ::
  "gql \<Rightarrow> jsstr \<Rightarrow> jsvalue \<Rightarrow> jsvalue \<Rightarrow> jsvalue \<Rightarrow> world \<Rightarrow> (gql_error + jsvalue) \<times> world"
where
  "execGraphql g query context variables schemaName w =
     (let result = graphql g schemaName query context variables;
          w' = w\<lparr>sent := sent w @ [query]\<rparr>
      in if errors result = [] then (Inr (data result), w')
         else
           (case assign_fields (formatError g) (errors result) [] of
              Inl e \<Rightarrow> (Inl e, w')
            | Inr fieldmap \<Rightarrow>
                (let fields' = (if length fieldmap = 0 then unknown_fields else fieldmap)
                 in (Inl (GraphqlError
                            (js ''[schema:'' @
                               (if truthy schemaName then ToString schemaName else js ''default'') @
                               js ''] Error in graphQL api'')
                            (errors result) fields'), w'))))"

text \<open>The options of \<open>exec\<close>; an absent option is \<open>undefined\<close>.\<close>

record exec_opts =
  key :: jsvalue
  ttl :: jsvalue
  variables :: jsvalue
  schemaName :: jsvalue

definition ONE_DAY :: int where
  "ONE_DAY = 24 * 3600 * 1000"

text \<open>Lines 172 to 174 of \<open>exec\<close>: the query text that is executed.\<close>

definition exec_query :: "jsstr \<Rightarrow> jsstr" where
  "exec_query query =
     (if \<not> re_operation query \<and> re_starts_alnum query
      then js ''query { '' @ query @ js '' }''
      else query)"

definition exec :: "gql \<Rightarrow> jsstr \<Rightarrow> jsvalue \<Rightarrow> exec_opts \<Rightarrow> world \<Rightarrow> (gql_error + jsvalue) \<times> world" where
  "exec g query context opts w =
     (let cacheKey = key opts;
          ttl' = (if ttl opts = JUndefined then JNum ONE_DAY else ttl opts);
          variables' = (if variables opts = JUndefined then JObj [] else variables opts)
      in if truthy cacheKey \<and> cache g \<and> truthy (cache_get w cacheKey)
         then (Inr (cache_get w cacheKey), w)
         else
           (case (if api g \<noteq> None then execApi g (exec_query query) w
                  else execGraphql g (exec_query query) context variables' (schemaName opts) w) of
              (Inl e, w') \<Rightarrow> (Inl e, w')
            | (Inr result, w') \<Rightarrow>
                (Inr result,
                 if truthy cacheKey \<and> cache g then cache_set w' cacheKey result ttl' else w')))"

definition getAll :: "gql \<Rightarrow> jsstr \<Rightarrow> jsvalue \<Rightarrow> exec_opts \<Rightarrow> world \<Rightarrow> (gql_error + jsvalue) \<times> world" where
  "getAll g query context opts w = exec g query context opts w"

text \<open>The operator \<open>k in v\<close>: a \<open>TypeError\<close> (here \<open>None\<close>) unless \<open>v\<close> is an object.\<close>

fun in_operator :: "jsstr \<Rightarrow> jsvalue \<Rightarrow> bool option" where
  "in_operator k (JObj kvs) = Some (map_of kvs k \<noteq> None)"
| "in_operator k (JArr xs) = Some (k = js ''length'' \<or> map_of (own_props (JArr xs)) k \<noteq> None)"
| "in_operator k v = None"

definition get :: "gql \<Rightarrow> jsstr \<Rightarrow> jsvalue \<Rightarrow> exec_opts \<Rightarrow> world \<Rightarrow> (gql_error + jsvalue) \<times> world" where
  "get g query context opts w =
     (case exec g query context opts w of
        (Inl e, w') \<Rightarrow> (Inl e, w')
      | (Inr result, w') \<Rightarrow>
          (if \<not> truthy result then (Inr result, w')
           else
             (let keys = Object_keys result
              in if length keys \<noteq> 1 then (Inr result, w')
                 else
                   (let newResult = get_prop result (keys ! 0)
                    in if truthy newResult then
                         (case in_operator (js ''nodes'') newResult of
                            None \<Rightarrow> (Inl TypeError, w')
                          | Some has_nodes \<Rightarrow>
                              if has_nodes \<and> length (Object_keys newResult) = 1
                              then (Inr (get_prop newResult (js ''nodes'')), w')
                              else (Inr newResult, w'))
                       else (Inr newResult, w')))))"

section \<open>Sample clients\<close>

text \<open>
  A client in local mode with no cache whose engine resolves every query with \<open>r\<close>, the
  options of a call that passes none, and the world before any call.
\<close>

definition local_client :: "exec_result \<Rightarrow> gql" where
  "local_client r =
     \<lparr>api = None, tryParseJson = (\<lambda>_. JNull), graphql = (\<lambda>_ _ _ _. r),
      formatError = (\<lambda>e. e), cache = False\<rparr>"

definition no_exec_opts :: exec_opts where
  "no_exec_opts =
     \<lparr>key = JUndefined, ttl = JUndefined, variables = JUndefined, schemaName = JUndefined\<rparr>"

definition empty_world :: world where
  "empty_world = \<lparr>store = Map.empty, sent = []\<rparr>"

text \<open>
  A client in remote mode with a cache whose endpoint answers every query with the
  response \<open>resp\<close>, parsed as \<open>parsed\<close>; and the options of a call that passes a cache key
  only.
\<close>

definition remote_client :: "response \<Rightarrow> jsvalue \<Rightarrow> gql" where
  "remote_client resp parsed =
     \<lparr>api = Some (\<lambda>_. resp), tryParseJson = (\<lambda>_. parsed),
      graphql = (\<lambda>_ _ _ _. \<lparr>data = JUndefined, errors = []\<rparr>),
      formatError = (\<lambda>e. e), cache = True\<rparr>"

definition keyed_opts :: "jsvalue \<Rightarrow> exec_opts" where
  "keyed_opts k = \<lparr>key = k, ttl = JUndefined, variables = JUndefined, schemaName = JUndefined\<rparr>"

section \<open>Notions used in the properties\<close>

text \<open>A code unit that \<open>QuoteJSONString\<close> copies unchanged, whatever follows it.\<close>

definition plain_unit :: "jschar \<Rightarrow> bool" where
  "plain_unit c \<longleftrightarrow> quote_unit c = [c] \<and> \<not> is_lead c"

text \<open>The object that \<open>toGqlArg\<close> encodes: the argument after \<open>_.pick\<close>, when asked for.\<close>

definition picked :: "toGqlArg_opts \<Rightarrow> (jsstr \<times> jsvalue) list \<Rightarrow> (jsstr \<times> jsvalue) list" where
  "picked opts obj = (case pick opts of Some p \<Rightarrow> p obj | None \<Rightarrow> obj)"

text \<open>
  A literal segment that ends with a colon or an open parenthesis, optionally followed by
  white space: after the trailing white space is dropped, its last character is one of
  the two.
\<close>

definition ends_with_colon_or_paren :: "jsstr \<Rightarrow> bool" where
  "ends_with_colon_or_paren seg \<longleftrightarrow>
     (case dropWhile is_space (rev seg) of [] \<Rightarrow> False | c # _ \<Rightarrow> c = 0x3A \<or> c = 0x28)"

text \<open>
  The text of a field fragment: a string verbatim, an array as its truthy entries joined
  by a single space, nothing otherwise.
\<close>

definition field_fragment :: "jsvalue \<Rightarrow> jsstr" where
  "field_fragment v =
     (case v of
        JStr s \<Rightarrow> s
      | JArr xs \<Rightarrow> str_join (js '' '') (map ToString (filter truthy xs))
      | _ \<Rightarrow> [])"

text \<open>The text of one interpolation slot, given the literal segment before it.\<close>

definition slot_text :: "jsstr \<Rightarrow> jsvalue \<Rightarrow> jsstr" where
  "slot_text prev v =
     (if ends_with_colon_or_paren prev then ToString (toGqlArg v no_opts) else field_fragment v)"

text \<open>What the normalization is described to test: the query text starts, after optional
  white space, with one of the operation keywords.\<close>

definition starts_with_operation_keyword :: "jsstr \<Rightarrow> bool" where
  "starts_with_operation_keyword q \<longleftrightarrow>
     prefix (js ''query'') (dropWhile is_space q) \<or>
     prefix (js ''mutation'') (dropWhile is_space q) \<or>
     prefix (js ''subscription'') (dropWhile is_space q)"

text \<open>
  The fields one raw error contributes, as a map: the own properties of the \<open>fields\<close> of the
  formatted error, a later property winning over an earlier one of the same key. The merge
  of all of them in order: a later error wins over an earlier one on a common key.
\<close>

definition error_fields :: "(jsvalue \<Rightarrow> jsvalue) \<Rightarrow> jsvalue \<Rightarrow> jsstr \<Rightarrow> jsvalue option" where
  "error_fields fmt e = map_of (rev (own_props (get_prop (fmt e) (js ''fields''))))"

definition merged_fields :: "(jsvalue \<Rightarrow> jsvalue) \<Rightarrow> jsvalue list \<Rightarrow> jsstr \<Rightarrow> jsvalue option" where
  "merged_fields fmt errs = foldl (++) Map.empty (map (error_fields fmt) errs)"

text \<open>The call of the remote or the local path that \<open>exec\<close> makes on a cache miss.\<close>

definition backend :: "gql \<Rightarrow> jsstr \<Rightarrow> jsvalue \<Rightarrow> exec_opts \<Rightarrow> world \<Rightarrow> (gql_error + jsvalue) \<times> world" where
  "backend g query context opts w =
     (if api g \<noteq> None then execApi g (exec_query query) w
      else execGraphql g (exec_query query) context
             (if variables opts = JUndefined then JObj [] else variables opts) (schemaName opts) w)"

text \<open>The test of \<open>exec\<close> that serves a call from the cache.\<close>

definition cache_hit :: "gql \<Rightarrow> exec_opts \<Rightarrow> world \<Rightarrow> bool" where
  "cache_hit g opts w \<longleftrightarrow> truthy (key opts) \<and> cache g \<and> truthy (cache_get w (key opts))"

section \<open>Properties of the encoder\<close>

lemma quote_units_plain:
  "list_all plain_unit a \<Longrightarrow> quote_units (a @ b) = a @ quote_units b"
proof (induction a)
  case Nil
  then show ?case by simp
next
  case (Cons c a)
  then have pc: "plain_unit c" and a: "list_all plain_unit a"
    by simp_all
  from pc have c: "quote_unit c = [c]" "\<not> is_lead c"
    by (simp_all add: plain_unit_def)
  have IH: "quote_units (a @ b) = a @ quote_units b"
    using Cons.IH a by simp
  show ?case
  proof (cases "a @ b")
    case Nil
    then show ?thesis using c by simp
  next
    case tail: (Cons d cs)
    then have "quote_units (c # a @ b) = quote_unit c @ quote_units (a @ b)"
      using c by simp
    then show ?thesis using c IH by simp
  qed
qed

lemma ENUM_PREFIX_plain: "list_all plain_unit ENUM_PREFIX"
  by (simp add: ENUM_PREFIX_def js_def plain_unit_def quote_unit_def is_lead_def is_trail_def)

lemma ENUM_REGEX_prefixed:
  "ENUM_REGEX (ENUM_PREFIX @ suf) =
     (if suf \<noteq> [] \<and> list_all is_enum_char suf then Some suf else None)"
  by (simp add: ENUM_REGEX_def Let_def)

lemma ENUM_REGEX_Some:
  "ENUM_REGEX str = Some val \<longleftrightarrow>
     str = ENUM_PREFIX @ val \<and> val \<noteq> [] \<and> list_all is_enum_char val"
  by (auto simp: ENUM_REGEX_def Let_def prefix_def)

lemma digits_nonempty: "digits n \<noteq> []"
  by (subst digits.simps) simp

lemma ToString_JNum_nonempty: "ToString (JNum n) \<noteq> []"
  by (simp add: digits_nonempty)

lemma QuoteJSONString_nonempty: "QuoteJSONString s \<noteq> []"
  by (simp add: QuoteJSONString_def)

lemma convertStrToGqlArg_nonempty: "convertStrToGqlArg s \<noteq> []"
  by (auto simp: convertStrToGqlArg_def QuoteJSONString_nonempty split: option.splits)

lemma convertToGqlArg_cases:
  "convertToGqlArg v = JNull \<and> is_nullish v \<or>
   (\<exists>t. convertToGqlArg v = JStr t \<and> t \<noteq> [] \<and> \<not> is_nullish v)"
proof (cases v)
  case (JArr xs)
  then show ?thesis by (simp add: convertToGqlArg.simps js_def)
next
  case (JObj kvs)
  then show ?thesis by (simp add: convertToGqlArg.simps js_def)
qed (simp_all add: convertToGqlArg.simps ToString_JNum_nonempty convertStrToGqlArg_nonempty
       js_def del: ToString.simps)

lemma convertToGqlArg_nullish: "is_nullish v \<Longrightarrow> convertToGqlArg v = JNull"
  by (simp add: convertToGqlArg.simps)

lemma truthy_convertToGqlArg: "truthy (convertToGqlArg v) \<longleftrightarrow> \<not> is_nullish v"
  using convertToGqlArg_cases [of v] by auto

lemma str_join_empty_iff:
  "sep \<noteq> [] \<Longrightarrow> str_join sep xs = [] \<longleftrightarrow> xs = [] \<or> xs = [[]]"
  by (induction sep xs rule: str_join.induct) auto

lemma convertObjToGqlArg_empty_iff:
  "convertObjToGqlArg obj = [] \<longleftrightarrow> forEach_entries obj = []"
proof -
  have sep: "js '', '' \<noteq> []" by (simp add: js_def)
  have colon: "js '': '' \<noteq> []" by (simp add: js_def)
  show ?thesis
    by (cases "forEach_entries obj")
       (auto simp: convertObjToGqlArg.simps str_join_empty_iff [OF sep] colon)
qed

text \<open>
  C6. For every string passed to the argument encoder: a string that matches the
  enum-sentinel pattern, the fixed prefix followed by an identifier (one or more letters or
  underscores, as \<open>ENUM_REGEX\<close> has it), is emitted as the bare identifier with no quotes;
  any other string is emitted as a JSON-style string literal, between double quotes and
  escaped; and the encoding of \<open>enum("ACTIVE")\<close> is the bare token \<open>ACTIVE\<close>.
\<close>

theorem enum_sentinel_bare_else_quoted:
  "(ident \<noteq> [] \<and> list_all is_enum_char ident \<longrightarrow>
      convertStrToGqlArg (ENUM_PREFIX @ ident) = ident \<and>
      convertToGqlArg (JStr (ENUM_PREFIX @ ident)) = JStr ident) \<and>
   (ENUM_REGEX str = None \<longrightarrow>
      convertStrToGqlArg str = QuoteJSONString str \<and>
      convertToGqlArg (JStr str) = JStr ([0x22] @ quote_units str @ [0x22])) \<and>
   (ENUM_REGEX str = None \<longleftrightarrow>
      \<not> (\<exists>ident. str = ENUM_PREFIX @ ident \<and> ident \<noteq> [] \<and> list_all is_enum_char ident)) \<and>
   convertToGqlArg (Gql_enum (JStr (js ''ACTIVE''))) = JStr (js ''ACTIVE'')"
proof -
  have bare: "convertStrToGqlArg (ENUM_PREFIX @ i) = i"
    if "i \<noteq> []" "list_all is_enum_char i" for i
    using that by (simp add: convertStrToGqlArg_def ENUM_REGEX_prefixed)
  have quoted: "convertStrToGqlArg str = QuoteJSONString str" if "ENUM_REGEX str = None"
    using that by (simp add: convertStrToGqlArg_def)
  have none: "ENUM_REGEX str = None \<longleftrightarrow>
      \<not> (\<exists>ident. str = ENUM_PREFIX @ ident \<and> ident \<noteq> [] \<and> list_all is_enum_char ident)"
    using ENUM_REGEX_Some [of str] by (cases "ENUM_REGEX str") auto
  have active: "convertToGqlArg (Gql_enum (JStr (js ''ACTIVE''))) = JStr (js ''ACTIVE'')"
  proof -
    have "Gql_enum (JStr (js ''ACTIVE'')) = JStr (ENUM_PREFIX @ js ''ACTIVE'')"
      by (simp add: Gql_enum_def js_def)
    moreover have "js ''ACTIVE'' \<noteq> []" "list_all is_enum_char (js ''ACTIVE'')"
      by (simp_all add: js_def is_enum_char_def)
    ultimately show ?thesis
      using bare [of "js ''ACTIVE''"] by (simp add: convertToGqlArg.simps)
  qed
  show ?thesis
    using bare quoted none active
    by (simp add: convertToGqlArg.simps QuoteJSONString_def)
qed

theorem enum_sentinel_bare_else_quoted_witness:
  "js ''ACTIVE'' \<noteq> [] \<and> list_all is_enum_char (js ''ACTIVE'') \<and>
   convertStrToGqlArg (ENUM_PREFIX @ js ''ACTIVE'') = js ''ACTIVE'' \<and>
   ENUM_REGEX (js ''plain string'') = None \<and>
   convertToGqlArg (JStr (js ''plain string'')) = JStr ([0x22] @ js ''plain string'' @ [0x22])"
proof -
  have a: "js ''ACTIVE'' \<noteq> []" "list_all is_enum_char (js ''ACTIVE'')"
    by (simp_all add: js_def is_enum_char_def)
  have n: "ENUM_REGEX (js ''plain string'') = None"
    by (simp add: ENUM_REGEX_def ENUM_PREFIX_def js_def)
  have q: "quote_units (js ''plain string'') = js ''plain string''"
    by (simp add: js_def quote_unit_def is_lead_def is_trail_def)
  show ?thesis
    using enum_sentinel_bare_else_quoted [of "js ''ACTIVE''" "js ''plain string''"] a n q
    by simp
qed

text \<open>
  C10. The enum-sentinel recognition accepts only identifiers made of ASCII letters and
  the underscore: for every sentinel-prefixed string whose suffix contains any other
  character (a digit, as in \<open>enum("STATE1")\<close>), the encoder does not strip the prefix and
  emits the whole string, prefix included, as a quoted JSON string literal.
\<close>

theorem enum_sentinel_other_chars_quoted:
  "\<not> list_all is_enum_char suf \<Longrightarrow>
     convertStrToGqlArg (ENUM_PREFIX @ suf) = QuoteJSONString (ENUM_PREFIX @ suf) \<and>
     QuoteJSONString (ENUM_PREFIX @ suf) = [0x22] @ ENUM_PREFIX @ quote_units suf @ [0x22] \<and>
     convertToGqlArg (JStr (ENUM_PREFIX @ suf)) =
       JStr ([0x22] @ ENUM_PREFIX @ quote_units suf @ [0x22])"
proof -
  assume other: "\<not> list_all is_enum_char suf"
  have 1: "convertStrToGqlArg (ENUM_PREFIX @ suf) = QuoteJSONString (ENUM_PREFIX @ suf)"
    using other by (simp add: convertStrToGqlArg_def ENUM_REGEX_prefixed)
  have 2: "QuoteJSONString (ENUM_PREFIX @ suf) = [0x22] @ ENUM_PREFIX @ quote_units suf @ [0x22]"
    by (simp add: QuoteJSONString_def quote_units_plain [OF ENUM_PREFIX_plain])
  have 3: "convertToGqlArg (JStr (ENUM_PREFIX @ suf)) =
      JStr ([0x22] @ ENUM_PREFIX @ quote_units suf @ [0x22])"
    using 1 2 by (simp add: convertToGqlArg.simps)
  from 1 2 3 show ?thesis by simp
qed

theorem enum_sentinel_other_chars_quoted_witness:
  "\<not> list_all is_enum_char (js ''STATE1'') \<and>
   convertToGqlArg (Gql_enum (JStr (js ''STATE1''))) =
     JStr ([0x22] @ js ''__ENUM__::STATE1'' @ [0x22])"
proof -
  have other: "\<not> list_all is_enum_char (js ''STATE1'')"
    by (simp add: js_def is_enum_char_def)
  have e: "Gql_enum (JStr (js ''STATE1'')) = JStr (ENUM_PREFIX @ js ''STATE1'')"
    by (simp add: Gql_enum_def js_def)
  have q: "quote_units (js ''STATE1'') = js ''STATE1''"
    by (simp add: js_def quote_unit_def is_lead_def is_trail_def)
  have p: "ENUM_PREFIX @ js ''STATE1'' = js ''__ENUM__::STATE1''"
    by (simp add: ENUM_PREFIX_def js_def)
  show ?thesis
    using enum_sentinel_other_chars_quoted [OF other] other e q p by simp
qed

lemma forEach_entries_single_nullish:
  "is_nullish v \<Longrightarrow> forEach_entries [(k, v)] = [(k, v)]"
  by (cases v) (simp_all add: forEach_entries_def)

lemma toGqlArg_encoding_nullish: "is_nullish v \<Longrightarrow> toGqlArg_encoding v opts = JNull"
  by (cases v) (simp_all add: toGqlArg_encoding_def convertToGqlArg.simps)

text \<open>
  C7, as stated, for the top-level call: the text returned by \<open>toGqlArg(null)\<close> is the
  placeholder, not the literal \<open>null\<close>.
\<close>

theorem toGqlArg_null_top_level_counterexample:
  "toGqlArg JNull no_opts = JStr no_args_text \<and>
   toGqlArg JNull no_opts \<noteq> JStr (js ''null'') \<and>
   toGqlArg JUndefined no_opts \<noteq> JStr (js ''null'')"
  by (simp add: toGqlArg_def toGqlArg_encoding_def convertToGqlArg.simps no_opts_def
        no_args_text_def js_def)

text \<open>
  C7. For every \<open>null\<close> or \<open>undefined\<close> value: as the value of a key inside an encoded
  mapping, the text emitted for the key is \<open>key: null\<close>; \<open>convertToGqlArg\<close> itself returns
  the value \<open>null\<close>, so at a top-level \<open>toGqlArg\<close> call the encoding is empty and the
  returned text is the placeholder \<open># no args <>\<close> with its line feed (a single space when
  round brackets are requested).
\<close>

theorem null_argument_encoding:
  "(is_nullish v \<longrightarrow>
      convertToGqlArg v = JNull \<and>
      toGqlArg v opts = (if roundBrackets opts then JStr (js '' '') else JStr no_args_text) \<and>
      convertObjToGqlArg [(k, v)] = k @ js '': null'' \<and>
      convertToGqlArg (JObj [(k, v)]) = JStr (js ''{'' @ k @ js '': null}'')) \<and>
   convertObjToGqlArg obj =
     str_join (js '', '')
       (map (\<lambda>kv. fst kv @ js '': '' @
                 (if is_nullish (snd kv) then js ''null'' else ToString (convertToGqlArg (snd kv))))
          (forEach_entries obj))"
proof -
  have entry: "ToString (convertToGqlArg x) = js ''null''" if "is_nullish x" for x
    using that by (simp add: convertToGqlArg_nullish)
  have general: "convertObjToGqlArg obj =
     str_join (js '', '')
       (map (\<lambda>kv. fst kv @ js '': '' @
                 (if is_nullish (snd kv) then js ''null'' else ToString (convertToGqlArg (snd kv))))
          (forEach_entries obj))"
  proof -
    have "map (\<lambda>kv. fst kv @ js '': '' @ ToString (convertToGqlArg (snd kv))) (forEach_entries obj) =
          map (\<lambda>kv. fst kv @ js '': '' @
                 (if is_nullish (snd kv) then js ''null'' else ToString (convertToGqlArg (snd kv))))
            (forEach_entries obj)"
      by (rule map_cong [OF refl]) (simp add: entry)
    then show ?thesis
      by (simp only: convertObjToGqlArg.simps)
  qed
  have top: "toGqlArg v opts = (if roundBrackets opts then JStr (js '' '') else JStr no_args_text)"
    if "is_nullish v"
    using that by (simp add: toGqlArg_def toGqlArg_encoding_nullish js_def)
  have single: "convertObjToGqlArg [(k, v)] = k @ js '': null''" if "is_nullish v"
    using that
    by (simp add: convertObjToGqlArg.simps forEach_entries_single_nullish entry js_def)
  have nested: "convertToGqlArg (JObj [(k, v)]) = JStr (js ''{'' @ k @ js '': null}'')"
    if "is_nullish v"
    using single [OF that] by (simp add: convertToGqlArg.simps js_def)
  show ?thesis
    using general top single nested by (simp add: convertToGqlArg_nullish)
qed

theorem null_argument_encoding_witness:
  "is_nullish JNull \<and>
   toGqlArg JNull no_opts = JStr no_args_text \<and>
   convertObjToGqlArg [(js ''a'', JNull)] = js ''a: null'' \<and>
   convertToGqlArg (JObj [(js ''a'', JNull)]) = JStr (js ''{a: null}'')"
proof -
  have n: "is_nullish JNull" by simp
  have r: "\<not> roundBrackets no_opts" by (simp add: no_opts_def)
  show ?thesis
    using null_argument_encoding [of JNull no_opts "js ''a''" "[]"] n r
    by (simp add: js_def)
qed

lemma truthy_toGqlArg_encoding:
  "\<not> truthy (toGqlArg_encoding arg opts) \<longleftrightarrow>
     is_nullish arg \<or>
     (\<exists>obj. arg = JObj obj \<and> \<not> curlyBrackets opts \<and> forEach_entries (picked opts obj) = [])"
proof (cases arg)
  case (JObj obj)
  then show ?thesis
    by (simp add: toGqlArg_encoding_def picked_def Let_def convertObjToGqlArg_empty_iff js_def
          split: option.splits)
qed (simp_all add: toGqlArg_encoding_def truthy_convertToGqlArg)

text \<open>
  C8, as stated, with round brackets requested and an empty encoding: the returned text is
  a single space, not the placeholder.
\<close>

theorem toGqlArg_round_empty_counterexample:
  "toGqlArg_encoding (JObj []) \<lparr>pick = None, curlyBrackets = False, roundBrackets = True\<rparr> = JStr [] \<and>
   toGqlArg (JObj []) \<lparr>pick = None, curlyBrackets = False, roundBrackets = True\<rparr> = JStr (js '' '') \<and>
   toGqlArg (JObj []) \<lparr>pick = None, curlyBrackets = False, roundBrackets = True\<rparr>
     \<noteq> JStr (js ''# no args <>'')"
  by (simp add: toGqlArg_def toGqlArg_encoding_def convertObjToGqlArg.simps forEach_entries_def
        js_def)

text \<open>
  C8. For every call of \<open>toGqlArg\<close>: when round-bracket wrapping is requested, a non-empty
  encoding is wrapped in parentheses and an empty one gives a single space; when it is not
  requested, a non-empty encoding is returned as it is and an empty one gives the comment
  placeholder \<open># no args <>\<close> followed by a line feed. The encoding is empty exactly for
  \<open>null\<close>, \<open>undefined\<close> and a plain object with nothing to visit that is not put in curly
  brackets.
\<close>

theorem toGqlArg_brackets_and_placeholder:
  "(roundBrackets opts \<and> truthy (toGqlArg_encoding arg opts) \<longrightarrow>
      toGqlArg arg opts = JStr (js ''('' @ ToString (toGqlArg_encoding arg opts) @ js '')'')) \<and>
   (roundBrackets opts \<and> \<not> truthy (toGqlArg_encoding arg opts) \<longrightarrow>
      toGqlArg arg opts = JStr (js '' '')) \<and>
   (\<not> roundBrackets opts \<and> truthy (toGqlArg_encoding arg opts) \<longrightarrow>
      toGqlArg arg opts = toGqlArg_encoding arg opts) \<and>
   (\<not> roundBrackets opts \<and> \<not> truthy (toGqlArg_encoding arg opts) \<longrightarrow>
      toGqlArg arg opts = JStr (js ''# no args <>'' @ [0x0A])) \<and>
   (\<not> truthy (toGqlArg_encoding arg opts) \<longleftrightarrow>
      is_nullish arg \<or>
      (\<exists>obj. arg = JObj obj \<and> \<not> curlyBrackets opts \<and> forEach_entries (picked opts obj) = []))"
proof -
  let ?e = "toGqlArg_encoding arg opts"
  have paren: "truthy (JStr (js ''('' @ t @ js '')''))" for t
    by (simp add: js_def)
  have space: "truthy (JStr (js '' ''))"
    by (simp add: js_def)
  have c1: "toGqlArg arg opts = JStr (js ''('' @ ToString ?e @ js '')'')"
    if "roundBrackets opts" "truthy ?e"
    using that paren by (simp add: toGqlArg_def Let_def)
  have c2: "toGqlArg arg opts = JStr (js '' '')"
    if "roundBrackets opts" "\<not> truthy ?e"
    using that space by (simp add: toGqlArg_def Let_def)
  have c3: "toGqlArg arg opts = ?e"
    if "\<not> roundBrackets opts" "truthy ?e"
    using that by (simp add: toGqlArg_def Let_def)
  have c4: "toGqlArg arg opts = JStr (js ''# no args <>'' @ [0x0A])"
    if "\<not> roundBrackets opts" "\<not> truthy ?e"
    using that by (simp add: toGqlArg_def Let_def no_args_text_def)
  from c1 c2 c3 c4 truthy_toGqlArg_encoding [of arg opts] show ?thesis
    by blast
qed

theorem toGqlArg_brackets_and_placeholder_witness:
  "toGqlArg (JObj [(js ''id'', JNum 42)]) \<lparr>pick = None, curlyBrackets = False, roundBrackets = True\<rparr>
     = JStr (js ''(id: 42)'') \<and>
   toGqlArg (JObj []) \<lparr>pick = None, curlyBrackets = False, roundBrackets = True\<rparr> = JStr (js '' '') \<and>
   toGqlArg (JNum 42) no_opts = JStr (js ''42'') \<and>
   toGqlArg (JObj []) no_opts = JStr (js ''# no args <>'' @ [0x0A])"
proof -
  let ?r = "\<lparr>pick = None, curlyBrackets = False, roundBrackets = True\<rparr>"
  have e1: "toGqlArg_encoding (JObj [(js ''id'', JNum 42)]) ?r = JStr (js ''id: 42'')"
    by code_simp
  have e2: "toGqlArg_encoding (JObj []) ?r = JStr []"
    by code_simp
  have e3: "toGqlArg_encoding (JNum 42) no_opts = JStr (js ''42'')"
    by code_simp
  have e4: "toGqlArg_encoding (JObj []) no_opts = JStr []"
    by code_simp
  have r: "roundBrackets ?r" "\<not> roundBrackets no_opts"
    by (simp_all add: no_opts_def)
  show ?thesis
    using toGqlArg_brackets_and_placeholder [of ?r "JObj [(js ''id'', JNum 42)]"]
      toGqlArg_brackets_and_placeholder [of ?r "JObj []"]
      toGqlArg_brackets_and_placeholder [of no_opts "JNum 42"]
      toGqlArg_brackets_and_placeholder [of no_opts "JObj []"]
      e1 e2 e3 e4 r
    by (simp add: js_def)
qed

section \<open>Properties of the template engine\<close>

lemma not_space_colon_paren: "\<not> is_space 0x3A" "\<not> is_space 0x28"
  by (simp_all add: is_space_def)

lemma re_arg_end_all_space: "list_all is_space cs \<Longrightarrow> \<not> re_arg_end cs"
  by (induction cs) (auto simp: not_space_colon_paren)

lemma re_arg_end_iff: "re_arg_end seg \<longleftrightarrow> ends_with_colon_or_paren seg"
proof (induction seg)
  case Nil
  then show ?case by (simp add: ends_with_colon_or_paren_def)
next
  case (Cons c cs)
  show ?case
  proof (cases "list_all is_space cs")
    case True
    then have "dropWhile is_space (rev cs @ [c]) = dropWhile is_space [c]"
      by (intro dropWhile_append2) (simp add: list_all_iff)
    then show ?thesis
      using True re_arg_end_all_space [OF True]
      by (auto simp: ends_with_colon_or_paren_def not_space_colon_paren)
  next
    case False
    then obtain x where x: "x \<in> set (rev cs)" "\<not> is_space x"
      by (auto simp: list_all_iff)
    then have "dropWhile is_space (rev cs @ [c]) = dropWhile is_space (rev cs) @ [c]"
      by (rule dropWhile_append1)
    moreover have "dropWhile is_space (rev cs) \<noteq> []"
      using x by auto
    ultimately show ?thesis
      using False Cons.IH
      by (auto simp: ends_with_colon_or_paren_def split: list.splits)
  qed
qed

lemma Array_join_truthy:
  "Array_join (filter truthy xs) sep = str_join sep (map ToString (filter truthy xs))"
proof -
  have "map (\<lambda>x. if is_nullish x then [] else ToString x) (filter truthy xs) =
        map ToString (filter truthy xs)"
    by (rule map_cong [OF refl]) (auto elim: is_nullish.elims)
  then show ?thesis unfolding Array_join_def by (rule arg_cong)
qed

text \<open>The text one slot adds, as \<open>tag\<close> computes it.\<close>

lemma tag_loop_step:
  "i < length strings \<Longrightarrow>
     tag_loop strings args i out =
       tag_loop strings args (Suc i)
         (out @
          (if re_arg_end (strings ! (i - 1)) then ToString (toGqlArg (arg_at args (i - 1)) no_opts)
           else if truthy (arg_at args (i - 1)) then field_fragment (arg_at args (i - 1))
           else []) @
          strings ! i)"
  by (subst tag_loop.simps)
     (simp add: Let_def field_fragment_def Array_join_truthy split: jsvalue.splits)

lemma tag_loop_done: "length strings \<le> i \<Longrightarrow> tag_loop strings args i out = out"
  by (subst tag_loop.simps) simp

lemma field_fragment_falsy: "\<not> truthy v \<Longrightarrow> field_fragment v = []"
  by (cases v) (simp_all add: field_fragment_def)

lemma tag_loop_closed:
  "tag_loop strings args i out =
     out @ concat (map (\<lambda>j. slot_text (strings ! (j - 1)) (arg_at args (j - 1)) @ strings ! j)
                     [i..<length strings])"
proof (induction "length strings - i" arbitrary: i out)
  case 0
  then show ?case by (simp add: tag_loop_done)
next
  case (Suc n)
  then have lt: "i < length strings" and n: "n = length strings - Suc i"
    by simp_all
  have slot: "(if re_arg_end (strings ! (i - 1)) then ToString (toGqlArg (arg_at args (i - 1)) no_opts)
           else if truthy (arg_at args (i - 1)) then field_fragment (arg_at args (i - 1))
           else []) = slot_text (strings ! (i - 1)) (arg_at args (i - 1))"
    by (simp add: slot_text_def re_arg_end_iff field_fragment_falsy)
  let ?f = "\<lambda>j. slot_text (strings ! (j - 1)) (arg_at args (j - 1)) @ strings ! j"
  have "tag_loop strings args i out = tag_loop strings args (Suc i) (out @ ?f i)"
    by (simp only: tag_loop_step [OF lt] slot)
  also have "\<dots> = (out @ ?f i) @ concat (map ?f [Suc i..<length strings])"
    by (rule Suc.hyps(1) [OF n])
  also have "\<dots> = out @ concat (map ?f [i..<length strings])"
    using lt by (simp add: upt_conv_Cons del: One_nat_def)
  finally show ?case .
qed

text \<open>
  C4. For every template composition and every interpolation slot \<open>i\<close>: the slot is treated
  as an argument exactly when the literal segment just before it matches
  \<open>/(?::|\()\s*$/\<close>, that is, ends with a colon or an open parenthesis, optionally followed
  by white space; in that case the output of \<open>toGqlArg\<close> is spliced in, otherwise the field
  fragment, and the next segment follows. Composing the segments \<open>q(id:\<close> and \<open>) { name }\<close>
  with the value \<open>42\<close> yields \<open>q(id:42) { name }\<close>.
\<close>

theorem tag_argument_slots:
  "tag (s0 # rest) args =
     JStr (s0 @ concat (map (\<lambda>i. (if ends_with_colon_or_paren ((s0 # rest) ! (i - 1))
                                  then ToString (toGqlArg (arg_at args (i - 1)) no_opts)
                                  else field_fragment (arg_at args (i - 1))) @ (s0 # rest) ! i)
                          [1..<length (s0 # rest)])) \<and>
   (re_arg_end seg \<longleftrightarrow> ends_with_colon_or_paren seg) \<and>
   tag [js ''q(id:'', js '') { name }''] [JNum 42] = JStr (js ''q(id:42) { name }'')"
proof -
  have ex: "tag [js ''q(id:'', js '') { name }''] [JNum 42] = JStr (js ''q(id:42) { name }'')"
    by code_simp
  have closed: "tag (s0 # rest) args =
     JStr (s0 @ concat (map (\<lambda>i. (if ends_with_colon_or_paren ((s0 # rest) ! (i - 1))
                                  then ToString (toGqlArg (arg_at args (i - 1)) no_opts)
                                  else field_fragment (arg_at args (i - 1))) @ (s0 # rest) ! i)
                          [1..<length (s0 # rest)]))"
    by (simp only: tag_def list.case tag_loop_closed slot_text_def)
  from closed ex re_arg_end_iff [of seg] show ?thesis
    by blast
qed

theorem tag_argument_slots_witness:
  "ends_with_colon_or_paren (js ''q(id:'') \<and>
   \<not> ends_with_colon_or_paren (js ''{ '') \<and>
   tag [js ''q(id:'', js '') { name }''] [JNum 42] = JStr (js ''q(id:42) { name }'')"
proof -
  have a: "ends_with_colon_or_paren (js ''q(id:'')"
    by (simp add: ends_with_colon_or_paren_def js_def is_space_def)
  have b: "\<not> ends_with_colon_or_paren (js ''{ '')"
    by (simp add: ends_with_colon_or_paren_def js_def is_space_def)
  from tag_argument_slots [of "js ''q(id:''" "[js '') { name }'']" "[JNum 42]" "js ''q(id:''"] a b
  show ?thesis by blast
qed

text \<open>
  C5. For every interpolation slot classified as a field fragment: a string value is
  spliced verbatim, an array value is spliced as its truthy entries joined by a single
  space, and a falsy value contributes nothing; the following literal segment is always
  appended. Composing the segments \<open>{ \<close> and \<open> }\<close> with the value
  \<open>["name", null, "age"]\<close> yields \<open>{ name age }\<close>.
\<close>

theorem field_fragment_slots:
  "(0 < i \<and> i < length strings \<and> \<not> re_arg_end (strings ! (i - 1)) \<longrightarrow>
      (\<forall>s. arg_at args (i - 1) = JStr s \<longrightarrow>
           tag_loop strings args i out = tag_loop strings args (Suc i) (out @ s @ strings ! i)) \<and>
      (\<forall>xs. arg_at args (i - 1) = JArr xs \<longrightarrow>
           tag_loop strings args i out =
             tag_loop strings args (Suc i)
               (out @ str_join (js '' '') (map ToString (filter truthy xs)) @ strings ! i)) \<and>
      (\<not> truthy (arg_at args (i - 1)) \<longrightarrow>
           tag_loop strings args i out = tag_loop strings args (Suc i) (out @ strings ! i))) \<and>
   (\<not> re_arg_end a \<longrightarrow>
      tag [a, b] [JStr s] = JStr (a @ s @ b) \<and>
      tag [a, b] [JArr xs] = JStr (a @ str_join (js '' '') (map ToString (filter truthy xs)) @ b) \<and>
      (\<not> truthy v \<longrightarrow> tag [a, b] [v] = JStr (a @ b))) \<and>
   tag [js ''{ '', js '' }''] [JArr [JStr (js ''name''), JNull, JStr (js ''age'')]] =
     JStr (js ''{ name age }'')"
proof -
  have step: "tag_loop strings args i out =
      tag_loop strings args (Suc i) (out @ field_fragment (arg_at args (i - 1)) @ strings ! i)"
    if "i < length strings" "\<not> re_arg_end (strings ! (i - 1))"
    using that by (simp add: tag_loop_step field_fragment_falsy)
  have two: "tag [a, b] [u] = JStr (a @ field_fragment u @ b)" if "\<not> re_arg_end a" for u
    using that
    by (simp add: tag_def tag_loop_step [of "Suc 0"] tag_loop_done arg_at_def field_fragment_falsy)
  have str: "field_fragment (JStr t) = t" for t
    by (simp add: field_fragment_def)
  have arr: "field_fragment (JArr ys) = str_join (js '' '') (map ToString (filter truthy ys))" for ys
    by (simp add: field_fragment_def)
  have ex: "tag [js ''{ '', js '' }''] [JArr [JStr (js ''name''), JNull, JStr (js ''age'')]] =
     JStr (js ''{ name age }'')"
    by code_simp
  have general: "0 < i \<and> i < length strings \<and> \<not> re_arg_end (strings ! (i - 1)) \<longrightarrow>
      (\<forall>s. arg_at args (i - 1) = JStr s \<longrightarrow>
           tag_loop strings args i out = tag_loop strings args (Suc i) (out @ s @ strings ! i)) \<and>
      (\<forall>xs. arg_at args (i - 1) = JArr xs \<longrightarrow>
           tag_loop strings args i out =
             tag_loop strings args (Suc i)
               (out @ str_join (js '' '') (map ToString (filter truthy xs)) @ strings ! i)) \<and>
      (\<not> truthy (arg_at args (i - 1)) \<longrightarrow>
           tag_loop strings args i out = tag_loop strings args (Suc i) (out @ strings ! i))"
  proof (intro impI conjI allI)
    fix t
    assume h: "0 < i \<and> i < length strings \<and> \<not> re_arg_end (strings ! (i - 1))"
      and a: "arg_at args (i - 1) = JStr t"
    from h have "tag_loop strings args i out =
      tag_loop strings args (Suc i) (out @ field_fragment (arg_at args (i - 1)) @ strings ! i)"
      by (intro step) simp_all
    then show "tag_loop strings args i out = tag_loop strings args (Suc i) (out @ t @ strings ! i)"
      by (simp only: a str)
  next
    fix ys
    assume h: "0 < i \<and> i < length strings \<and> \<not> re_arg_end (strings ! (i - 1))"
      and a: "arg_at args (i - 1) = JArr ys"
    from h have "tag_loop strings args i out =
      tag_loop strings args (Suc i) (out @ field_fragment (arg_at args (i - 1)) @ strings ! i)"
      by (intro step) simp_all
    then show "tag_loop strings args i out =
             tag_loop strings args (Suc i)
               (out @ str_join (js '' '') (map ToString (filter truthy ys)) @ strings ! i)"
      by (simp only: a arr)
  next
    assume h: "0 < i \<and> i < length strings \<and> \<not> re_arg_end (strings ! (i - 1))"
      and a: "\<not> truthy (arg_at args (i - 1))"
    from h have "tag_loop strings args i out =
      tag_loop strings args (Suc i) (out @ field_fragment (arg_at args (i - 1)) @ strings ! i)"
      by (intro step) simp_all
    then show "tag_loop strings args i out = tag_loop strings args (Suc i) (out @ strings ! i)"
      by (simp only: field_fragment_falsy [OF a] append_Nil)
  qed
  have pair: "\<not> re_arg_end a \<longrightarrow>
      tag [a, b] [JStr s] = JStr (a @ s @ b) \<and>
      tag [a, b] [JArr xs] = JStr (a @ str_join (js '' '') (map ToString (filter truthy xs)) @ b) \<and>
      (\<not> truthy v \<longrightarrow> tag [a, b] [v] = JStr (a @ b))"
    using two [of "JStr s"] two [of "JArr xs"] two [of v] str [of s] arr [of xs]
      field_fragment_falsy [of v]
    by auto
  from general pair ex show ?thesis
    by (intro conjI)
qed


theorem field_fragment_slots_witness:
  "\<not> re_arg_end (js ''{ '') \<and>
   tag [js ''{ '', js '' }''] [JStr (js ''name'')] = JStr (js ''{ name }'') \<and>
   tag [js ''{ '', js '' }''] [JArr [JStr (js ''name''), JNull, JStr (js ''age'')]] =
     JStr (js ''{ name age }'') \<and>
   tag [js ''{ '', js '' }''] [JNull] = JStr (js ''{  }'') \<and>
   tag_loop [js ''{ '', js '' }''] [JNull] 1 (js ''{ '') =
     tag_loop [js ''{ '', js '' }''] [JNull] (Suc 1) (js ''{  }'')"
proof -
  let ?strings = "[js ''{ '', js '' }'']"
  note T = field_fragment_slots [of 1 ?strings "[JNull]" "js ''{ ''" "js ''{ ''" "js '' }''"
      "js ''name''" "[]" JNull]
  have n: "\<not> re_arg_end (js ''{ '')"
    by (simp add: js_def is_space_def)
  have pre: "0 < (1::nat) \<and> 1 < length ?strings \<and> \<not> re_arg_end (?strings ! (1 - 1))"
    using n by simp
  have f: "\<not> truthy JNull" "\<not> truthy (arg_at [JNull] (1 - 1))"
    by (simp_all add: arg_at_def)
  have cat: "js ''{ '' @ js ''name'' @ js '' }'' = js ''{ name }''"
    "js ''{ '' @ js '' }'' = js ''{  }''" "js ''{ '' @ ?strings ! 1 = js ''{  }''"
    by (simp_all add: js_def)
  from T n f have p1: "tag ?strings [JStr (js ''name'')] = JStr (js ''{ '' @ js ''name'' @ js '' }'')"
    by blast
  from T n f have p2: "tag ?strings [JNull] = JStr (js ''{ '' @ js '' }'')"
    by blast
  from T have p3: "tag ?strings [JArr [JStr (js ''name''), JNull, JStr (js ''age'')]] =
     JStr (js ''{ name age }'')"
    by blast
  from T pre f have p4: "tag_loop ?strings [JNull] 1 (js ''{ '') =
     tag_loop ?strings [JNull] (Suc 1) (js ''{ '' @ ?strings ! 1)"
    by blast
  from n p1 p2 p3 p4 show ?thesis
    unfolding cat by (intro conjI)
qed

section \<open>Properties of execution\<close>

text \<open>
  C1. A query is wrapped as \<open>query { <query> }\<close> if and only if it does not start (after
  optional leading white space) with one of the operation keywords and it begins with an
  identifier character. The code departs from this on \<open>user { subscription { plan } }\<close>:
  the text does not start with an operation keyword and begins with a letter, and it is
  executed as it stands, not wrapped, because the pattern of \<open>exec\<close> finds \<open>subscription\<close>
  (or \<open>mutation\<close>) anywhere in the text.
\<close>

theorem exec_keyword_inside_not_wrapped:
  "\<not> starts_with_operation_keyword (js ''user { subscription { plan } }'') \<and>
   re_starts_alnum (js ''user { subscription { plan } }'') \<and>
   exec_query (js ''user { subscription { plan } }'') = js ''user { subscription { plan } }'' \<and>
   sent (snd (exec (local_client \<lparr>data = JObj [], errors = []\<rparr>)
                (js ''user { subscription { plan } }'') JUndefined no_exec_opts empty_world)) =
     [js ''user { subscription { plan } }'']"
  by code_simp

text \<open>
  C9. If a successful result has exactly one top-level key, \<open>get\<close> returns that key's
  value. The code departs from this on the result \<open>{count: 5}\<close>: it has exactly one
  top-level key, and \<open>get\<close> fails with a \<open>TypeError\<close>, because the operator \<open>in\<close> is applied
  to the number \<open>5\<close>.
\<close>

theorem get_single_scalar_TypeError:
  "Object_keys (JObj [(js ''count'', JNum 5)]) = [js ''count''] \<and>
   fst (exec (local_client \<lparr>data = JObj [(js ''count'', JNum 5)], errors = []\<rparr>) (js ''count'')
          JUndefined no_exec_opts empty_world) = Inr (JObj [(js ''count'', JNum 5)]) \<and>
   fst (get (local_client \<lparr>data = JObj [(js ''count'', JNum 5)], errors = []\<rparr>) (js ''count'')
          JUndefined no_exec_opts empty_world) = Inl TypeError"
  by code_simp

lemma map_of_foldl_update:
  "map_of (foldl (\<lambda>acc kv. AList.update (fst kv) (snd kv) acc) target kvs) =
     map_of target ++ map_of (rev kvs)"
proof (induction kvs arbitrary: target)
  case Nil
  then show ?case by simp
next
  case (Cons kv kvs)
  have "map_of (AList.update (fst kv) (snd kv) target) ++ map_of (rev kvs) =
        map_of target ++ (map_of [kv] ++ map_of (rev kvs))"
    by (cases kv) (simp add: update_conv' map_add_upd_left)
  then show ?case
    using Cons.IH [of "AList.update (fst kv) (snd kv) target"] by simp
qed

lemma map_of_Object_assign:
  "map_of (Object_assign target source) = map_of target ++ map_of (rev (own_props source))"
  by (simp add: Object_assign_def map_of_foldl_update)

lemma foldl_map_add_shift:
  "foldl (++) (m ++ n) ms = m ++ foldl (++) n ms"
proof (induction ms arbitrary: n)
  case Nil
  then show ?case by simp
next
  case (Cons a ms)
  have "foldl (++) (m ++ n) (a # ms) = foldl (++) (m ++ (n ++ a)) ms"
    by simp
  also have "\<dots> = m ++ foldl (++) (n ++ a) ms"
    by (rule Cons.IH)
  finally show ?case by simp
qed

lemma assign_fields_merged:
  "\<forall>e \<in> set errs. \<not> is_nullish (fmt e) \<Longrightarrow>
     \<exists>acc'. assign_fields fmt errs acc = Inr acc' \<and>
            map_of acc' = map_of acc ++ merged_fields fmt errs"
proof (induction errs arbitrary: acc)
  case Nil
  then show ?case by (simp add: merged_fields_def)
next
  case (Cons e errs)
  let ?acc = "Object_assign acc (get_prop (fmt e) (js ''fields''))"
  from Cons.prems have ok: "\<not> is_nullish (fmt e)" and rest: "\<forall>e \<in> set errs. \<not> is_nullish (fmt e)"
    by simp_all
  from Cons.IH [OF rest, of ?acc] obtain acc' where
    acc': "assign_fields fmt errs ?acc = Inr acc'"
      "map_of acc' = map_of ?acc ++ merged_fields fmt errs"
    by blast
  have "map_of ?acc ++ merged_fields fmt errs = map_of acc ++ merged_fields fmt (e # errs)"
    using foldl_map_add_shift [of "error_fields fmt e" Map.empty "map (error_fields fmt) errs"]
    by (simp add: map_of_Object_assign merged_fields_def error_fields_def)
  with acc' ok show ?case by (simp add: Let_def)
qed

text \<open>
  C3. For every local-path execution whose result has a non-empty \<open>errors\<close> list (and a
  formatter that returns an object for each raw error), the call fails with a \<open>GraphqlError\<close>
  that carries the raw errors and a \<open>fields\<close> map which is the merge, in order and with
  last-write-wins on a common key, of the fields of each formatted error; the map is never
  empty: when no raw error contributes a field it is exactly
  \<open>{global: {message: 'Unknown Error', keyword: 'unknown'}}\<close>.
\<close>

theorem graphql_error_fields:
  assumes "errors (graphql g sn q ctx vars) \<noteq> []"
    and "\<forall>e \<in> set (errors (graphql g sn q ctx vars)). \<not> is_nullish (formatError g e)"
  shows "\<exists>msg fieldmap.
      fst (execGraphql g q ctx vars sn w) =
        Inl (GraphqlError msg (errors (graphql g sn q ctx vars)) fieldmap) \<and>
      fieldmap \<noteq> [] \<and>
      (merged_fields (formatError g) (errors (graphql g sn q ctx vars)) \<noteq> Map.empty \<longrightarrow>
         map_of fieldmap = merged_fields (formatError g) (errors (graphql g sn q ctx vars))) \<and>
      (merged_fields (formatError g) (errors (graphql g sn q ctx vars)) = Map.empty \<longrightarrow>
         fieldmap = [(js ''global'', JObj [(js ''message'', JStr (js ''Unknown Error'')),
                                           (js ''keyword'', JStr (js ''unknown''))])])"
proof -
  let ?errs = "errors (graphql g sn q ctx vars)"
  from assign_fields_merged [OF assms(2), of "[]"] obtain acc' where
    acc': "assign_fields (formatError g) ?errs [] = Inr acc'"
      "map_of acc' = merged_fields (formatError g) ?errs"
    by auto
  have empty: "acc' = [] \<longleftrightarrow> merged_fields (formatError g) ?errs = Map.empty"
    using acc'(2) by (metis map_of_eq_empty_iff)
  show ?thesis
  proof (cases "acc' = []")
    case True
    then show ?thesis
      using assms(1) acc' empty
      by (simp add: execGraphql_def Let_def unknown_fields_def)
  next
    case False
    then show ?thesis
      using assms(1) acc' empty
      by (simp add: execGraphql_def Let_def)
  qed
qed


theorem graphql_error_fields_witness:
  "errors \<lparr>data = JNull,
           errors = [JObj [(js ''fields'', JObj [(js ''email'', JStr (js ''taken''))])],
                     JObj [(js ''message'', JStr (js ''boom''))]]\<rparr> \<noteq> [] \<and>
   (\<exists>msg fieldmap.
      fst (execGraphql
             (local_client \<lparr>data = JNull,
                errors = [JObj [(js ''fields'', JObj [(js ''email'', JStr (js ''taken''))])],
                          JObj [(js ''message'', JStr (js ''boom''))]]\<rparr>)
             (js ''query { me }'') JUndefined (JObj []) JUndefined empty_world) =
        Inl (GraphqlError msg
               [JObj [(js ''fields'', JObj [(js ''email'', JStr (js ''taken''))])],
                JObj [(js ''message'', JStr (js ''boom''))]] fieldmap) \<and>
      map_of fieldmap = [js ''email'' \<mapsto> JStr (js ''taken'')])"
proof -
  let ?errs = "[JObj [(js ''fields'', JObj [(js ''email'', JStr (js ''taken''))])],
                JObj [(js ''message'', JStr (js ''boom''))]]"
  let ?g = "local_client \<lparr>data = JNull, errors = ?errs\<rparr>"
  have errs: "errors (graphql ?g JUndefined (js ''query { me }'') JUndefined (JObj [])) = ?errs"
    by (simp add: local_client_def)
  have ne: "errors (graphql ?g JUndefined (js ''query { me }'') JUndefined (JObj [])) \<noteq> []"
    by (simp add: local_client_def)
  have fmt: "\<forall>e \<in> set (errors (graphql ?g JUndefined (js ''query { me }'') JUndefined (JObj []))).
      \<not> is_nullish (formatError ?g e)"
    by (simp add: local_client_def)
  have merged: "merged_fields (formatError ?g) ?errs = [js ''email'' \<mapsto> JStr (js ''taken'')]"
    by (simp add: merged_fields_def error_fields_def local_client_def get_prop_def js_def)
  have nonempty: "merged_fields (formatError ?g) ?errs \<noteq> Map.empty"
    by (simp add: merged)
  from graphql_error_fields [OF ne fmt, of empty_world] obtain msg fieldmap where
    thrown: "fst (execGraphql ?g (js ''query { me }'') JUndefined (JObj []) JUndefined empty_world) =
        Inl (GraphqlError msg ?errs fieldmap)"
    and fm: "merged_fields (formatError ?g) ?errs \<noteq> Map.empty \<longrightarrow>
        map_of fieldmap = merged_fields (formatError ?g) ?errs"
    unfolding errs by blast
  from fm nonempty merged have "map_of fieldmap = [js ''email'' \<mapsto> JStr (js ''taken'')]"
    by simp
  with thrown show ?thesis
    by (intro conjI exI [of _ msg] exI [of _ fieldmap]) simp_all
qed

lemma cache_get_set: "cache_get (cache_set w k v t) k = v"
  by (simp add: cache_get_def cache_set_def)

lemma sent_cache_set: "sent (cache_set w k v t) = sent w"
  by (simp add: cache_set_def)

lemma execApi_world:
  "api g \<noteq> None \<Longrightarrow> snd (execApi g query w) = w\<lparr>sent := sent w @ [query]\<rparr>"
  by (auto simp: execApi_def Let_def)

lemma execApi_truthy:
  "execApi g query w = (Inr v, w') \<Longrightarrow> truthy v"
  by (auto simp: execApi_def Let_def split: option.splits if_splits)

lemma execGraphql_world:
  "snd (execGraphql g query ctx vars sn w) = w\<lparr>sent := sent w @ [query]\<rparr>"
  by (auto simp: execGraphql_def Let_def split: sum.splits)

lemma backend_world:
  "snd (backend g query ctx opts w) = w\<lparr>sent := sent w @ [exec_query query]\<rparr>"
  by (simp add: backend_def execApi_world execGraphql_world)

lemma backend_truthy:
  "backend g query ctx opts w = (Inr v, w') \<Longrightarrow> api g \<noteq> None \<Longrightarrow> truthy v"
  by (simp add: backend_def execApi_truthy)

lemma exec_hit:
  "cache_hit g opts w \<Longrightarrow> exec g query ctx opts w = (Inr (cache_get w (key opts)), w)"
  by (simp add: exec_def cache_hit_def Let_def)

lemma exec_miss:
  "\<not> cache_hit g opts w \<Longrightarrow>
     exec g query ctx opts w =
       (case backend g query ctx opts w of
          (Inl e, w') \<Rightarrow> (Inl e, w')
        | (Inr result, w') \<Rightarrow>
            (Inr result,
             if truthy (key opts) \<and> cache g
             then cache_set w' (key opts) result
                    (if ttl opts = JUndefined then JNum ONE_DAY else ttl opts)
             else w'))"
  by (auto simp: exec_def cache_hit_def backend_def Let_def)

lemma exec_miss_sent:
  assumes "\<not> cache_hit g opts w"
  shows "sent (snd (exec g query ctx opts w)) = sent w @ [exec_query query]"
proof -
  obtain r w' where b: "backend g query ctx opts w = (r, w')"
    by (cases "backend g query ctx opts w")
  then have w': "w' = w\<lparr>sent := sent w @ [exec_query query]\<rparr>"
    using backend_world [of g query ctx opts w] by simp
  show ?thesis
    using b w' by (cases r) (simp_all add: exec_miss [OF assms] sent_cache_set)
qed

lemma exec_miss_failure_store:
  assumes "\<not> cache_hit g opts w" and "exec g query ctx opts w = (Inl e, w1)"
  shows "store w1 = store w"
proof -
  obtain r w' where b: "backend g query ctx opts w = (r, w')"
    by (cases "backend g query ctx opts w")
  then have w': "w' = w\<lparr>sent := sent w @ [exec_query query]\<rparr>"
    using backend_world [of g query ctx opts w] by simp
  show ?thesis
    using b w' assms(2) by (cases r) (auto simp: exec_miss [OF assms(1)])
qed

lemma exec_failure_miss:
  "exec g query ctx opts w = (Inl e, w1) \<Longrightarrow> \<not> cache_hit g opts w"
  by (auto simp: exec_hit)

lemma exec_success_cached:
  assumes "exec g query ctx opts w = (Inr v, w1)" and "truthy (key opts)" and "cache g"
  shows "cache_get w1 (key opts) = v"
proof (cases "cache_hit g opts w")
  case True
  then show ?thesis using assms(1) by (auto simp: exec_hit)
next
  case False
  obtain r w' where b: "backend g query ctx opts w = (r, w')"
    by (cases "backend g query ctx opts w")
  show ?thesis
    using b assms by (cases r) (auto simp: exec_miss [OF False] cache_get_set)
qed

lemma exec_success_truthy:
  assumes "exec g query ctx opts w = (Inr v, w1)" and "api g \<noteq> None"
  shows "truthy v"
proof (cases "cache_hit g opts w")
  case True
  then show ?thesis using assms(1) by (auto simp: exec_hit cache_hit_def)
next
  case False
  obtain r w' where b: "backend g query ctx opts w = (r, w')"
    by (cases "backend g query ctx opts w")
  show ?thesis
    using b assms backend_truthy [of g query ctx opts w v w']
    by (cases r) (auto simp: exec_miss [OF False])
qed

lemma exec_sent_at_most_one:
  "length (sent (snd (exec g query ctx opts w))) \<le> Suc (length (sent w))"
proof (cases "cache_hit g opts w")
  case True
  then show ?thesis by (simp add: exec_hit)
next
  case False
  then show ?thesis by (simp add: exec_miss_sent)
qed

text \<open>
  C2. With a cache configured and a cache key supplied, two sequential \<open>exec\<close> calls with
  the same key, the first of which resolves (with a truthy result, as every result of the
  remote path is), issue at most one underlying execution: the second is served from the
  cache and hands nothing to the endpoint or the engine. If the first call fails, nothing
  is written to the cache, and a subsequent call executes again. If no cache is configured
  or no key is supplied, the underlying execution always runs.
\<close>

theorem exec_cache_idempotence:
  "(cache g \<and> truthy (key opts) \<and> exec g query ctx opts w = (Inr v, w1) \<and>
    (api g \<noteq> None \<or> truthy v) \<and> cache g2 \<and> key opts2 = key opts \<longrightarrow>
      exec g2 query2 ctx2 opts2 w1 = (Inr v, w1) \<and>
      length (sent w1) \<le> Suc (length (sent w))) \<and>
   (exec g query ctx opts w = (Inl e, w1) \<and> cache g2 = cache g \<and> key opts2 = key opts \<longrightarrow>
      store w1 = store w \<and>
      sent w1 = sent w @ [exec_query query] \<and>
      sent (snd (exec g2 query2 ctx2 opts2 w1)) = sent w1 @ [exec_query query2]) \<and>
   (\<not> cache g \<or> \<not> truthy (key opts) \<longrightarrow>
      sent (snd (exec g query ctx opts w)) = sent w @ [exec_query query])"
proof (intro conjI impI)
  assume h: "cache g \<and> truthy (key opts) \<and> exec g query ctx opts w = (Inr v, w1) \<and>
    (api g \<noteq> None \<or> truthy v) \<and> cache g2 \<and> key opts2 = key opts"
  then have ex: "exec g query ctx opts w = (Inr v, w1)" by simp
  have "truthy v"
    using h exec_success_truthy [OF ex] by blast
  moreover have "cache_get w1 (key opts) = v"
    using h exec_success_cached [OF ex] by blast
  ultimately have "cache_hit g2 opts2 w1"
    using h by (simp add: cache_hit_def)
  then show "exec g2 query2 ctx2 opts2 w1 = (Inr v, w1)"
    using \<open>cache_get w1 (key opts) = v\<close> h by (simp add: exec_hit)
  show "length (sent w1) \<le> Suc (length (sent w))"
    using exec_sent_at_most_one [of g query ctx opts w] ex by simp
next
  assume h: "exec g query ctx opts w = (Inl e, w1) \<and> cache g2 = cache g \<and> key opts2 = key opts"
  then have ex: "exec g query ctx opts w = (Inl e, w1)" by simp
  have miss: "\<not> cache_hit g opts w"
    using ex by (rule exec_failure_miss)
  show st: "store w1 = store w"
    using miss ex by (rule exec_miss_failure_store)
  show "sent w1 = sent w @ [exec_query query]"
    using exec_miss_sent [OF miss, of query ctx] ex by simp
  have "\<not> cache_hit g2 opts2 w1"
    using miss h st by (simp add: cache_hit_def cache_get_def)
  then show "sent (snd (exec g2 query2 ctx2 opts2 w1)) = sent w1 @ [exec_query query2]"
    by (rule exec_miss_sent)
next
  assume "\<not> cache g \<or> \<not> truthy (key opts)"
  then have "\<not> cache_hit g opts w"
    by (auto simp: cache_hit_def)
  then show "sent (snd (exec g query ctx opts w)) = sent w @ [exec_query query]"
    by (rule exec_miss_sent)
qed


theorem exec_cache_idempotence_witness:
  "cache (remote_client \<lparr>statusCode = 200, body = js ''ok''\<rparr> (JObj [(js ''data'', JNum 1)])) \<and>
   truthy (key (keyed_opts (JStr (js ''k'')))) \<and>
   fst (exec (remote_client \<lparr>statusCode = 200, body = js ''ok''\<rparr> (JObj [(js ''data'', JNum 1)]))
          (js ''user { id }'') JUndefined (keyed_opts (JStr (js ''k''))) empty_world) =
     Inr (JObj [(js ''data'', JNum 1)]) \<and>
   exec (remote_client \<lparr>statusCode = 200, body = js ''ok''\<rparr> (JObj [(js ''data'', JNum 1)]))
     (js ''user { id }'') JUndefined (keyed_opts (JStr (js ''k'')))
     (snd (exec (remote_client \<lparr>statusCode = 200, body = js ''ok''\<rparr> (JObj [(js ''data'', JNum 1)]))
             (js ''user { id }'') JUndefined (keyed_opts (JStr (js ''k''))) empty_world)) =
     (Inr (JObj [(js ''data'', JNum 1)]),
      snd (exec (remote_client \<lparr>statusCode = 200, body = js ''ok''\<rparr> (JObj [(js ''data'', JNum 1)]))
             (js ''user { id }'') JUndefined (keyed_opts (JStr (js ''k''))) empty_world)) \<and>
   fst (exec (remote_client \<lparr>statusCode = 500, body = js ''no''\<rparr> JNull)
          (js ''user { id }'') JUndefined (keyed_opts (JStr (js ''k''))) empty_world) =
     Inl (ApiError (js ''500, Unknown error'') JUndefined) \<and>
   sent (snd (exec (remote_client \<lparr>statusCode = 500, body = js ''no''\<rparr> JNull)
                (js ''user { id }'') JUndefined (keyed_opts (JStr (js ''k'')))
                (snd (exec (remote_client \<lparr>statusCode = 500, body = js ''no''\<rparr> JNull)
                        (js ''user { id }'') JUndefined (keyed_opts (JStr (js ''k''))) empty_world)))) =
     [js ''query { user { id } }'', js ''query { user { id } }''] \<and>
   sent (snd (exec (local_client \<lparr>data = JObj [], errors = []\<rparr>) (js ''user { id }'') JUndefined
                (keyed_opts (JStr (js ''k''))) empty_world)) =
     [js ''query { user { id } }'']"
proof -
  let ?g = "remote_client \<lparr>statusCode = 200, body = js ''ok''\<rparr> (JObj [(js ''data'', JNum 1)])"
  let ?f = "remote_client \<lparr>statusCode = 500, body = js ''no''\<rparr> JNull"
  let ?l = "local_client \<lparr>data = JObj [], errors = []\<rparr>"
  let ?o = "keyed_opts (JStr (js ''k''))"
  let ?q = "js ''user { id }''"
  let ?v = "JObj [(js ''data'', JNum 1)]"
  let ?e = "ApiError (js ''500, Unknown error'') JUndefined"
  let ?w1 = "snd (exec ?g ?q JUndefined ?o empty_world)"
  let ?w2 = "snd (exec ?f ?q JUndefined ?o empty_world)"
  have g: "cache ?g" "api ?g \<noteq> None" "cache ?f" "\<not> cache ?l"
    by (simp_all add: remote_client_def local_client_def)
  have k: "truthy (key ?o)"
    by (simp add: keyed_opts_def js_def)
  have r1: "fst (exec ?g ?q JUndefined ?o empty_world) = Inr ?v"
    by code_simp
  have r2: "fst (exec ?f ?q JUndefined ?o empty_world) = Inl ?e"
    by code_simp
  have q: "exec_query ?q = js ''query { user { id } }''"
    by code_simp
  have s0: "sent empty_world = []"
    by (simp add: empty_world_def)
  from r1 have e1: "exec ?g ?q JUndefined ?o empty_world = (Inr ?v, ?w1)"
    by (simp add: prod_eq_iff)
  from r2 have e2: "exec ?f ?q JUndefined ?o empty_world = (Inl ?e, ?w2)"
    by (simp add: prod_eq_iff)
  note T1 = exec_cache_idempotence [of ?g ?o ?q JUndefined empty_world ?v ?w1 ?g ?o ?q JUndefined ?e]
  note T2 = exec_cache_idempotence [of ?f ?o ?q JUndefined empty_world ?v ?w2 ?f ?o ?q JUndefined ?e]
  note T3 = exec_cache_idempotence [of ?l ?o ?q JUndefined empty_world ?v ?w1 ?l ?o ?q JUndefined ?e]
  from T1 g k e1 have c1: "exec ?g ?q JUndefined ?o ?w1 = (Inr ?v, ?w1)"
    by blast
  from T2 e2 have c2: "sent ?w2 = sent empty_world @ [exec_query ?q]"
    "sent (snd (exec ?f ?q JUndefined ?o ?w2)) = sent ?w2 @ [exec_query ?q]"
    by blast+
  from T3 g have c3: "sent (snd (exec ?l ?q JUndefined ?o empty_world)) =
      sent empty_world @ [exec_query ?q]"
    by blast
  from g k r1 c1 r2 c2 c3 show ?thesis
    by (simp add: q s0)
qed

end
